theory Spec2Isabelle
  imports Main "HOL-Library.Word"
begin

section \<open>Data model of pkg/sql/alter_type.go\<close>

text \<open>
  Descriptor ids are \<^verbatim>\<open>descpb.ID\<close>, an unsigned 32-bit integer. A mutable descriptor is
  reached through a pointer (\<^verbatim>\<open>*sqlbase.MutableTypeDescriptor\<close>); the model addresses it
  by a reference into an explicit heap, so that two pointers to the same descriptor alias.
\<close>

type_synonym descID = "32 word"

type_synonym ref = nat

text \<open>
  \<^verbatim>\<open>descpb.NameInfo{ParentID, ParentSchemaID, Name}\<close>. The same triple is the key of a
  namespace entry (\<^verbatim>\<open>MakeObjectNameKey(parentID, parentSchemaID, name)\<close>); the byte
  encoding of the key is not modelled.
\<close>

datatype NameInfo = NameInfo descID descID string

record EnumMember =
  PhysicalRepresentation :: "8 word list"
  LogicalRepresentation :: string

datatype TypeKind = ENUM | ALIAS

text \<open>
  The declaration of the type descriptor is outside this file. The record has the fields
  this file reads or writes (\<open>ID\<close>, \<open>Name\<close>, \<open>ParentID\<close>, \<open>ParentSchemaID\<close>, \<open>Kind\<close>,
  \<open>ArrayTypeID\<close>, \<open>EnumMembers\<close>) and, from the data model of the spec, the draining names
  and the version.
\<close>

record TypeDescriptor =
  ID :: descID
  Name :: string
  ParentID :: descID
  ParentSchemaID :: descID
  Kind :: TypeKind
  ArrayTypeID :: descID
  EnumMembers :: "EnumMember list"
  DrainingNames :: "NameInfo list"
  Version :: "32 word"

datatype pgcode = DuplicateObject | InvalidParameterValue | WrongObjectType

datatype ObjectKind = DatabaseObject | SchemaObject | TableObject | TypeObject

text \<open>What \<^verbatim>\<open>GetAnyDescriptorByID\<close> returns, as far as this file uses it: kind and name.\<close>

record AnyDescriptor =
  kind :: ObjectKind
  name :: string

text \<open>
  Errors as values. \<open>PgError\<close> is \<^verbatim>\<open>pgerror.Newf(code, format, args)\<close> with the message
  formatted; \<open>AssertionFailed\<close> is \<^verbatim>\<open>errors.AssertionFailedf\<close>; \<open>ObjectAlreadyExists\<close> is
  the result of \<^verbatim>\<open>sqlbase.MakeObjectAlreadyExistsError\<close>, which names the kind of the
  colliding object; \<open>WhileConstructingObjectAlreadyExists\<close> is the result of
  \<^verbatim>\<open>sqlbase.WrapErrorWhileConstructingObjectAlreadyExistsErr\<close>; \<open>ConditionFailed\<close> is the
  failure of a conditional put; \<open>External\<close> is any other error a collaborator returns.
\<close>

datatype error =
    PgError pgcode string
  | is_AssertionFailed: AssertionFailed string
  | is_ObjectAlreadyExists: ObjectAlreadyExists ObjectKind string
  | WhileConstructingObjectAlreadyExists error
  | ConditionFailed NameInfo
  | External string

text \<open>
  \<^verbatim>\<open>tree.AlterTypeCmd\<close> is an interface; \<^verbatim>\<open>startExec\<close> switches on its dynamic type.
  \<open>OtherCmd\<close> stands for every value whose dynamic type is none of the four cases of the
  switch, and carries its rendering by \<^verbatim>\<open>%s\<close>.
\<close>

datatype AlterTypeCmd =
    is_AddValue: AlterTypeAddValue string
  | is_RenameValue: AlterTypeRenameValue string string
  | is_Rename: AlterTypeRename string
  | is_SetSchema: AlterTypeSetSchema string
  | OtherCmd string

record AlterType =
  Type :: string
  Cmd :: AlterTypeCmd

text \<open>\<^verbatim>\<open>alterTypeNode{n, desc}\<close>; the fields are prefixed, \<open>n\<close> being used for variables.\<close>

record alterTypeNode =
  node_n :: AlterType
  node_desc :: ref

text \<open>
  The calls that leave the planner, in the order they are issued:
  \<^verbatim>\<open>writeTypeSchemaChange(ctx, desc, jobDesc)\<close> with the descriptor as it is passed,
  \<^verbatim>\<open>b.CPut(key, id, nil)\<close> followed by \<^verbatim>\<open>txn.Run(ctx, b)\<close>, and \<^verbatim>\<open>desc.Validate\<close>.
\<close>

datatype call =
    WriteTypeSchemaChange TypeDescriptor string
  | CPut NameInfo descID
  | is_ValidateCall: ValidateCall TypeDescriptor

text \<open>
  The state a statement runs in: the mutable descriptors by reference, the namespace as
  the transaction sees it, and the calls issued so far.
\<close>

record world =
  heap :: "ref \<Rightarrow> TypeDescriptor"
  namespace :: "NameInfo \<rightharpoonup> descID"
  trace :: "call list"

text \<open>
  The collaborators whose code is outside this file, as parameters. Each reads the state
  and returns what the Go function returns; \<open>LookupObjectID\<close> returns Go's triple
  \<^verbatim>\<open>(exists, id, err)\<close>. \<open>writeError\<close> is the error, if any, that the descriptor store
  returns for a write; \<open>genPhysicalRepresentation\<close> is the encoding chosen for a new
  enum member.
\<close>

record env =
  LookupObjectID :: "world \<Rightarrow> descID \<Rightarrow> descID \<Rightarrow> string \<Rightarrow> bool \<times> descID \<times> error option"
  GetAnyDescriptorByID :: "world \<Rightarrow> descID \<Rightarrow> error + AnyDescriptor"
  findFreeArrayTypeName :: "world \<Rightarrow> descID \<Rightarrow> descID \<Rightarrow> string \<Rightarrow> error + string"
  GetMutableTypeVersionByID :: "world \<Rightarrow> descID \<Rightarrow> error + ref"
  prepareSetSchema :: "world \<Rightarrow> TypeDescriptor \<Rightarrow> string \<Rightarrow> error + descID"
  Validate :: "world \<Rightarrow> TypeDescriptor \<Rightarrow> error option"
  writeError :: "world \<Rightarrow> TypeDescriptor \<Rightarrow> string \<Rightarrow> error option"
  genPhysicalRepresentation :: "EnumMember list \<Rightarrow> 8 word list"
  AsStringWithFQNames :: "AlterType \<Rightarrow> string"

section \<open>Helpers of the descriptor and of the transaction\<close>

text \<open>
  Modelled from the spec: the method \<^verbatim>\<open>AddDrainingName\<close> of the mutable descriptor is
  not in this file. The spec's data model gives a descriptor a collection of draining
  names that rename and reparent add to; the model appends.
\<close>

definition AddDrainingName :: "TypeDescriptor \<Rightarrow> NameInfo \<Rightarrow> TypeDescriptor" where
  "AddDrainingName d nm = d\<lparr>DrainingNames := DrainingNames d @ [nm]\<rparr>"

text \<open>Modelled from the spec: the setter \<^verbatim>\<open>SetParentSchemaID\<close>, which is not in this file.\<close>

definition SetParentSchemaID :: "TypeDescriptor \<Rightarrow> descID \<Rightarrow> TypeDescriptor" where
  "SetParentSchemaID d sid = d\<lparr>ParentSchemaID := sid\<rparr>"

text \<open>
  Modelled from the spec: \<^verbatim>\<open>MakeObjectNameKey\<close> is not in this file. The key of a namespace
  entry is (parent container id, parent schema id, name).
\<close>

definition MakeObjectNameKey :: "descID \<Rightarrow> descID \<Rightarrow> string \<Rightarrow> NameInfo" where
  "MakeObjectNameKey parentID parentSchemaID nm = NameInfo parentID parentSchemaID nm"

text \<open>Assignment through the pointer \<open>r\<close>: the descriptor it points to becomes \<open>d\<close>.\<close>

definition set_desc :: "ref \<Rightarrow> TypeDescriptor \<Rightarrow> world \<Rightarrow> world" where
  "set_desc r d w = w\<lparr>heap := (heap w)(r := d)\<rparr>"

text \<open>
  Modelled from the spec: \<^verbatim>\<open>writeTypeSchemaChange\<close> is not in this file. The spec has
  \<open>writeDescriptor(descriptor, changeDescriptionText)\<close>, which persists a new version and
  records an audit-facing description, and gives a descriptor a monotonic version. The
  model records the call with the descriptor as passed; when the store accepts the write
  the descriptor's version is the next one. The source tests the error the call returns:
  whether the store refuses the write is the parameter \<open>writeError\<close>.
\<close>

definition writeTypeSchemaChange :: "env \<Rightarrow> ref \<Rightarrow> string \<Rightarrow> world \<Rightarrow> error option \<times> world" where
  "writeTypeSchemaChange e r jobDesc w =
     (let d = heap w r;
          w1 = w\<lparr>trace := trace w @ [WriteTypeSchemaChange d jobDesc]\<rparr>
      in case writeError e w d jobDesc of
           Some err \<Rightarrow> (Some err, w1)
         | None \<Rightarrow> (None, set_desc r (d\<lparr>Version := Version d + 1\<rparr>) w1))"

text \<open>
  Modelled from the spec: \<^verbatim>\<open>b.CPut(key, id, nil)\<close> and \<^verbatim>\<open>txn.Run(ctx, b)\<close>, a
  conditional write that only succeeds if the key is currently absent.
\<close>

definition CPut_Run :: "NameInfo \<Rightarrow> descID \<Rightarrow> world \<Rightarrow> error option \<times> world" where
  "CPut_Run key v w =
     (let w1 = w\<lparr>trace := trace w @ [CPut key v]\<rparr>
      in if namespace w key = None
         then (None, w1\<lparr>namespace := (namespace w)(key \<mapsto> v)\<rparr>)
         else (Some (ConditionFailed key), w1))"

text \<open>
  Modelled from the spec: \<^verbatim>\<open>sqlbase.MakeObjectAlreadyExistsError\<close>, an "already exists"
  error naming the kind of the colliding object.
\<close>

definition MakeObjectAlreadyExistsError :: "AnyDescriptor \<Rightarrow> string \<Rightarrow> error" where
  "MakeObjectAlreadyExistsError collidingDesc nm = ObjectAlreadyExists (kind collidingDesc) nm"

text \<open>
  \<^verbatim>\<open>sqlbase.WrapErrorWhileConstructingObjectAlreadyExistsErr\<close> is not in this file and the
  spec does not describe it: its result is a constructor of its own around the error it
  wraps.
\<close>

definition WrapErrorWhileConstructingObjectAlreadyExistsErr :: "error \<Rightarrow> error" where
  "WrapErrorWhileConstructingObjectAlreadyExistsErr err = WhileConstructingObjectAlreadyExists err"

text \<open>
  Modelled from the spec: the method \<^verbatim>\<open>AddEnumValue\<close> of the mutable descriptor is not in
  this file. The spec: it validates uniqueness of the new logical name against all
  existing members and appends it preserving order. The text of the error is not in the
  spec; the model uses that of \<^verbatim>\<open>renameTypeValue\<close>.
\<close>

definition AddEnumValue :: "env \<Rightarrow> TypeDescriptor \<Rightarrow> string \<Rightarrow> error + TypeDescriptor" where
  "AddEnumValue e d newVal =
     (if newVal \<in> set (map LogicalRepresentation (EnumMembers d))
      then Inl (PgError DuplicateObject (''enum label '' @ newVal @ '' already exists''))
      else Inr (d\<lparr>EnumMembers := EnumMembers d @
             [\<lparr>PhysicalRepresentation = genPhysicalRepresentation e (EnumMembers d),
               LogicalRepresentation = newVal\<rparr>]\<rparr>))"

section \<open>The operators\<close>

definition addEnumValue :: "env \<Rightarrow> alterTypeNode \<Rightarrow> string \<Rightarrow> world \<Rightarrow> error option \<times> world" where
  "addEnumValue e n newVal w =
     (case AddEnumValue e (heap w (node_desc n)) newVal of
        Inl err \<Rightarrow> (Some err, w)
      | Inr d \<Rightarrow>
          writeTypeSchemaChange e (node_desc n) (AsStringWithFQNames e (node_n n))
            (set_desc (node_desc n) d w))"

definition performRenameTypeDesc :: "env \<Rightarrow> ref \<Rightarrow> string \<Rightarrow> string \<Rightarrow> world \<Rightarrow> error option \<times> world" where
  "performRenameTypeDesc e r newName jobDesc w =
     (let d = heap w r;
          nm = NameInfo (ParentID d) (ParentSchemaID d) (Name d);
          w1 = set_desc r ((AddDrainingName d nm)\<lparr>Name := newName\<rparr>) w
      in case writeTypeSchemaChange e r jobDesc w1 of
           (Some err, w2) \<Rightarrow> (Some err, w2)
         | (None, w2) \<Rightarrow>
             (let d2 = heap w2 r;
                  key = MakeObjectNameKey (ParentID d2) (ParentSchemaID d2) newName
              in CPut_Run key (ID d2) w2))"

definition renameType :: "env \<Rightarrow> alterTypeNode \<Rightarrow> string \<Rightarrow> world \<Rightarrow> error option \<times> world" where
  "renameType e n newName w =
     (let d = heap w (node_desc n)
      in case LookupObjectID e w (ParentID d) (ParentSchemaID d) newName of
           (exists, id', err) \<Rightarrow>
             if err = None \<and> exists then
               (case GetAnyDescriptorByID e w id' of
                  Inl err' \<Rightarrow> (Some (WrapErrorWhileConstructingObjectAlreadyExistsErr err'), w)
                | Inr collidingDesc \<Rightarrow> (Some (MakeObjectAlreadyExistsError collidingDesc newName), w))
             else if err \<noteq> None then (err, w)
             else
               (case performRenameTypeDesc e (node_desc n) newName
                       (AsStringWithFQNames e (node_n n)) w of
                  (Some err1, w1) \<Rightarrow> (Some err1, w1)
                | (None, w1) \<Rightarrow>
                    (let d1 = heap w1 (node_desc n)
                     in case findFreeArrayTypeName e w1 (ParentID d1) (ParentSchemaID d1) newName of
                          Inl err2 \<Rightarrow> (Some err2, w1)
                        | Inr newArrayName \<Rightarrow>
                            (case GetMutableTypeVersionByID e w1 (ArrayTypeID d1) of
                               Inl err3 \<Rightarrow> (Some err3, w1)
                             | Inr arrayDesc \<Rightarrow>
                                 performRenameTypeDesc e arrayDesc newArrayName
                                   (AsStringWithFQNames e (node_n n)) w1))))"

text \<open>
  The loop of \<^verbatim>\<open>renameTypeValue\<close>: \<open>i\<close> is the index of the member at the head of the
  list, \<open>enumMemberIndex\<close> the value of the variable so far (\<open>-1\<close> at the start). The
  \<^verbatim>\<open>return\<close> inside the loop is \<open>Inl\<close>.
\<close>

fun renameTypeValue_loop :: "EnumMember list \<Rightarrow> string \<Rightarrow> string \<Rightarrow> nat \<Rightarrow> int \<Rightarrow> error + int" where
  "renameTypeValue_loop [] oldVal newVal i enumMemberIndex = Inr enumMemberIndex"
| "renameTypeValue_loop (member # rest) oldVal newVal i enumMemberIndex =
     (if LogicalRepresentation member = oldVal
      then renameTypeValue_loop rest oldVal newVal (Suc i) (int i)
      else if LogicalRepresentation member = newVal
      then Inl (PgError DuplicateObject (''enum label '' @ newVal @ '' already exists''))
      else renameTypeValue_loop rest oldVal newVal (Suc i) enumMemberIndex)"

definition renameTypeValue :: "env \<Rightarrow> alterTypeNode \<Rightarrow> string \<Rightarrow> string \<Rightarrow> world \<Rightarrow> error option \<times> world" where
  "renameTypeValue e n oldVal newVal w =
     (let d = heap w (node_desc n)
      in case renameTypeValue_loop (EnumMembers d) oldVal newVal 0 (- 1) of
           Inl err \<Rightarrow> (Some err, w)
         | Inr enumMemberIndex \<Rightarrow>
             if enumMemberIndex = - 1
             then (Some (PgError InvalidParameterValue (oldVal @ '' is not an existing enum label'')), w)
             else
               (let i = nat enumMemberIndex;
                    members = (EnumMembers d)[i := (EnumMembers d ! i)\<lparr>LogicalRepresentation := newVal\<rparr>]
                in writeTypeSchemaChange e (node_desc n) (AsStringWithFQNames e (node_n n))
                     (set_desc (node_desc n) (d\<lparr>EnumMembers := members\<rparr>) w)))"

text \<open>
  \<^verbatim>\<open>setTypeSchema\<close>. The trace event that the Go code logs when KV tracing is enabled
  (\<^verbatim>\<open>log.VEventf\<close>) changes no state and is left out.
\<close>

definition setTypeSchema :: "env \<Rightarrow> alterTypeNode \<Rightarrow> string \<Rightarrow> world \<Rightarrow> error option \<times> world" where
  "setTypeSchema e n schema w =
     (let typeDesc = node_desc n;
          schemaID = ParentSchemaID (heap w typeDesc);
          databaseID = ParentID (heap w typeDesc)
      in case prepareSetSchema e w (heap w typeDesc) schema of
           Inl err \<Rightarrow> (Some err, w)
         | Inr desiredSchemaID \<Rightarrow>
             if desiredSchemaID = schemaID then (None, w)
             else
               (let nm = NameInfo databaseID schemaID (Name (heap w typeDesc));
                    w1 = set_desc typeDesc
                           (SetParentSchemaID (AddDrainingName (heap w typeDesc) nm) desiredSchemaID) w
                in case writeTypeSchemaChange e typeDesc (AsStringWithFQNames e (node_n n)) w1 of
                     (Some err, w2) \<Rightarrow> (Some err, w2)
                   | (None, w2) \<Rightarrow>
                       (let newKey = MakeObjectNameKey databaseID desiredSchemaID
                                       (Name (heap w2 typeDesc))
                        in CPut_Run newKey (ID (heap w2 typeDesc)) w2)))"

section \<open>The mutation engine\<close>

text \<open>The \<^verbatim>\<open>switch\<close> of \<^verbatim>\<open>startExec\<close>: the operator the command selects.\<close>

definition dispatch :: "env \<Rightarrow> alterTypeNode \<Rightarrow> world \<Rightarrow> error option \<times> world" where
  "dispatch e n w =
     (case Cmd (node_n n) of
        AlterTypeAddValue newVal \<Rightarrow> addEnumValue e n newVal w
      | AlterTypeRenameValue oldVal newVal \<Rightarrow> renameTypeValue e n oldVal newVal w
      | AlterTypeRename newName \<Rightarrow> renameType e n newName w
      | AlterTypeSetSchema schema \<Rightarrow> setTypeSchema e n schema w
      | OtherCmd t \<Rightarrow> (Some (AssertionFailed (''unknown alter type cmd '' @ t)), w))"

definition Validate_call :: "env \<Rightarrow> ref \<Rightarrow> world \<Rightarrow> error option \<times> world" where
  "Validate_call e r w =
     (Validate e w (heap w r), w\<lparr>trace := trace w @ [ValidateCall (heap w r)]\<rparr>)"

definition startExec :: "env \<Rightarrow> alterTypeNode \<Rightarrow> world \<Rightarrow> error option \<times> world" where
  "startExec e n w =
     (case dispatch e n w of
        (Some err, w1) \<Rightarrow> (Some err, w1)
      | (None, w1) \<Rightarrow> Validate_call e (node_desc n) w1)"

text \<open>The descriptors that validation was invoked on, oldest first.\<close>

definition validations :: "world \<Rightarrow> TypeDescriptor list" where
  "validations w = [d. ValidateCall d \<leftarrow> trace w]"

section \<open>What a rename is, in the words of the spec\<close>

text \<open>
  The four steps the spec gives for renaming one descriptor, as a relation between the
  state before and the state after: the current (parent, schema, old name) is recorded as
  a draining name; the name is set to the new name; the new version is written with the
  audit string (the write is the next call of the trace, and the stored version is the
  next one); the namespace insert at the new key is the call after it, the key was absent
  before, and it maps to the descriptor's id after.
\<close>

definition rename_applied :: "ref \<Rightarrow> string \<Rightarrow> string \<Rightarrow> world \<Rightarrow> world \<Rightarrow> bool" where
  "rename_applied r newName jobDesc w w' =
     (let d = heap w r;
          drained = d\<lparr>DrainingNames :=
                      DrainingNames d @ [NameInfo (ParentID d) (ParentSchemaID d) (Name d)]\<rparr>;
          renamed = drained\<lparr>Name := newName\<rparr>;
          key = NameInfo (ParentID d) (ParentSchemaID d) newName
      in trace w' = trace w @ [WriteTypeSchemaChange renamed jobDesc, CPut key (ID d)]
       \<and> heap w' = (heap w)(r := renamed\<lparr>Version := Version d + 1\<rparr>)
       \<and> namespace w key = None
       \<and> namespace w' = (namespace w)(key \<mapsto> ID d))"

section \<open>A concrete catalog\<close>

text \<open>
  The scenario of the spec: the enum type \<open>status\<close> with members \<open>active\<close> and
  \<open>inactive\<close>, its array type \<open>_status\<close>, and a table \<open>t1\<close> in the same schema.
\<close>

definition status_desc :: TypeDescriptor where
  "status_desc =
     \<lparr>ID = 52, Name = ''status'', ParentID = 50, ParentSchemaID = 29, Kind = ENUM,
      ArrayTypeID = 53,
      EnumMembers =
        [\<lparr>PhysicalRepresentation = [0x40], LogicalRepresentation = ''active''\<rparr>,
         \<lparr>PhysicalRepresentation = [0x80], LogicalRepresentation = ''inactive''\<rparr>],
      DrainingNames = [], Version = 1\<rparr>"

definition status_array_desc :: TypeDescriptor where
  "status_array_desc =
     \<lparr>ID = 53, Name = ''_status'', ParentID = 50, ParentSchemaID = 29, Kind = ALIAS,
      ArrayTypeID = 0, EnumMembers = [], DrainingNames = [], Version = 1\<rparr>"

definition example_world :: world where
  "example_world =
     \<lparr>heap = (\<lambda>r. status_desc)(53 := status_array_desc),
      namespace = [NameInfo 50 29 ''status'' \<mapsto> 52, NameInfo 50 29 ''_status'' \<mapsto> 53,
                   NameInfo 50 29 ''t1'' \<mapsto> 54],
      trace = []\<rparr>"

text \<open>
  Collaborators for the scenario: the lookup reads the namespace, every write is accepted
  and every descriptor is valid.
\<close>

definition example_env :: env where
  "example_env =
     \<lparr>LookupObjectID = (\<lambda>w parentID parentSchemaID nm.
        case namespace w (NameInfo parentID parentSchemaID nm) of
          None \<Rightarrow> (False, 0, None) | Some i \<Rightarrow> (True, i, None)),
      GetAnyDescriptorByID = (\<lambda>w i.
        if i = 54 then Inr \<lparr>kind = TableObject, name = ''t1''\<rparr>
        else Inr \<lparr>kind = TypeObject, name = ''status''\<rparr>),
      findFreeArrayTypeName = (\<lambda>w parentID parentSchemaID nm. Inr (''_'' @ nm)),
      GetMutableTypeVersionByID = (\<lambda>w i.
        if i = 52 then Inr 52 else if i = 53 then Inr 53
        else Inl (External ''descriptor not found'')),
      prepareSetSchema = (\<lambda>w d schema.
        if schema = ''public'' then Inr 29 else if schema = ''other'' then Inr 60
        else Inl (External ''unknown schema'')),
      Validate = (\<lambda>w d. None),
      writeError = (\<lambda>w d jobDesc. None),
      genPhysicalRepresentation = (\<lambda>members. [0xc0]),
      AsStringWithFQNames = (\<lambda>a. ''ALTER TYPE '' @ Type a)\<rparr>"

text \<open>The same, with the fetch of a descriptor by id failing.\<close>

definition failing_fetch_env :: env where
  "failing_fetch_env =
     example_env\<lparr>GetAnyDescriptorByID := (\<lambda>w i. Inl (External ''descriptor not found''))\<rparr>"

text \<open>The same, with validation rejecting every descriptor.\<close>

definition failing_validate_env :: env where
  "failing_validate_env =
     example_env\<lparr>Validate := (\<lambda>w d. Some (External ''invalid descriptor''))\<rparr>"

definition example_node :: "AlterTypeCmd \<Rightarrow> alterTypeNode" where
  "example_node c = \<lparr>node_n = \<lparr>Type = ''status'', Cmd = c\<rparr>, node_desc = 52\<rparr>"

section \<open>Facts about the helpers\<close>

lemmas example_defs = status_desc_def status_array_desc_def example_world_def example_env_def
  example_node_def

lemmas op_defs = renameTypeValue_def writeTypeSchemaChange_def set_desc_def CPut_Run_def
  performRenameTypeDesc_def renameType_def setTypeSchema_def addEnumValue_def AddEnumValue_def
  AddDrainingName_def SetParentSchemaID_def MakeObjectNameKey_def
  MakeObjectAlreadyExistsError_def WrapErrorWhileConstructingObjectAlreadyExistsErr_def
  dispatch_def startExec_def Validate_call_def Let_def

subsection \<open>The loop of renameTypeValue\<close>

lemma loop_duplicate:
  "oldVal \<noteq> newVal \<Longrightarrow> m \<in> set ms \<Longrightarrow> LogicalRepresentation m = newVal \<Longrightarrow>
   renameTypeValue_loop ms oldVal newVal i k =
     Inl (PgError DuplicateObject (''enum label '' @ newVal @ '' already exists''))"
  by (induction ms arbitrary: i k) auto

lemma loop_absent:
  "\<forall>m \<in> set ms. LogicalRepresentation m \<noteq> oldVal \<and> LogicalRepresentation m \<noteq> newVal \<Longrightarrow>
   renameTypeValue_loop ms oldVal newVal i k = Inr k"
  by (induction ms arbitrary: i k) auto

text \<open>
  When the loop ends without an error, the index is either the one it started with or the
  position of a member named \<open>oldVal\<close>, counted from \<open>i\<close>: the write at that index is
  in range.
\<close>

lemma loop_index:
  "renameTypeValue_loop ms oldVal newVal i k = Inr j \<Longrightarrow>
   j = k \<or> (int i \<le> j \<and> j < int i + int (length ms)
            \<and> LogicalRepresentation (ms ! nat (j - int i)) = oldVal)"
proof (induction ms arbitrary: i k)
  case Nil
  then show ?case by simp
next
  case (Cons m ms)
  show ?case
  proof (cases "LogicalRepresentation m = oldVal")
    case True
    with Cons.prems have "renameTypeValue_loop ms oldVal newVal (Suc i) (int i) = Inr j" by simp
    from Cons.IH [OF this] show ?thesis
    proof
      assume "j = int i"
      with True show ?thesis by simp
    next
      assume a: "int (Suc i) \<le> j \<and> j < int (Suc i) + int (length ms)
            \<and> LogicalRepresentation (ms ! nat (j - int (Suc i))) = oldVal"
      then have "nat (j - int i) = Suc (nat (j - int (Suc i)))" by linarith
      with a show ?thesis by simp
    qed
  next
    case False
    with Cons.prems have r: "renameTypeValue_loop ms oldVal newVal (Suc i) k = Inr j"
      by (simp split: if_splits)
    from Cons.IH [OF this] show ?thesis
    proof
      assume "j = k"
      then show ?thesis by simp
    next
      assume a: "int (Suc i) \<le> j \<and> j < int (Suc i) + int (length ms)
            \<and> LogicalRepresentation (ms ! nat (j - int (Suc i))) = oldVal"
      then have "nat (j - int i) = Suc (nat (j - int (Suc i)))" by linarith
      with a show ?thesis by simp
    qed
  qed
qed

lemma loop_found:
  "renameTypeValue_loop ms oldVal newVal i k = Inr j \<Longrightarrow> m \<in> set ms \<Longrightarrow>
   LogicalRepresentation m = oldVal \<Longrightarrow> int i \<le> j"
proof (induction ms arbitrary: i k)
  case Nil
  then show ?case by simp
next
  case (Cons a ms)
  show ?case
  proof (cases "LogicalRepresentation a = oldVal")
    case True
    with Cons.prems have r: "renameTypeValue_loop ms oldVal newVal (Suc i) (int i) = Inr j" by simp
    from loop_index [OF r] show ?thesis by auto
  next
    case False
    with Cons.prems have r: "renameTypeValue_loop ms oldVal newVal (Suc i) k = Inr j"
      and "m \<in> set ms" by (auto split: if_splits)
    from Cons.IH [OF r this(2) Cons.prems(3)] show ?thesis by simp
  qed
qed

lemma loop_same: "\<exists>j. renameTypeValue_loop ms v v i k = Inr j"
  by (induction ms arbitrary: i k) auto

subsection \<open>What the write and the conditional put leave alone\<close>

lemma write_result:
  "writeTypeSchemaChange e r j w =
     (writeError e w (heap w r) j,
      (case writeError e w (heap w r) j of
         Some err \<Rightarrow> w\<lparr>trace := trace w @ [WriteTypeSchemaChange (heap w r) j]\<rparr>
       | None \<Rightarrow> w\<lparr>heap := (heap w)(r := (heap w r)\<lparr>Version := Version (heap w r) + 1\<rparr>),
                  trace := trace w @ [WriteTypeSchemaChange (heap w r) j]\<rparr>))"
  by (simp add: writeTypeSchemaChange_def set_desc_def Let_def split: option.splits)

lemma write_names:
  "DrainingNames (heap (snd (writeTypeSchemaChange e r j w)) x) = DrainingNames (heap w x)"
  by (simp add: write_result split: option.splits)

lemma write_members:
  "EnumMembers (heap (snd (writeTypeSchemaChange e r j w)) x) = EnumMembers (heap w x)"
  by (simp add: write_result split: option.splits)

lemma write_validations:
  "validations (snd (writeTypeSchemaChange e r j w)) = validations w"
  by (simp add: write_result validations_def split: option.splits)

lemma set_desc_validations: "validations (set_desc r d w) = validations w"
  by (simp add: set_desc_def validations_def)

lemma cput_heap: "heap (snd (CPut_Run key v w)) = heap w"
  by (simp add: CPut_Run_def Let_def)

lemma cput_validations: "validations (snd (CPut_Run key v w)) = validations w"
  by (simp add: CPut_Run_def Let_def validations_def)

subsection \<open>Draining names and validations, operator by operator\<close>

lemma perform_names:
  "set (DrainingNames (heap w x))
     \<subseteq> set (DrainingNames (heap (snd (performRenameTypeDesc e r newName j w)) x))"
proof -
  let ?d = "heap w r"
  let ?w1 = "set_desc r ((AddDrainingName ?d (NameInfo (ParentID ?d) (ParentSchemaID ?d) (Name ?d)))
                \<lparr>Name := newName\<rparr>) w"
  have a: "set (DrainingNames (heap w x)) \<subseteq> set (DrainingNames (heap ?w1 x))"
    by (auto simp: set_desc_def AddDrainingName_def)
  have b: "DrainingNames (heap (snd (performRenameTypeDesc e r newName j w)) x)
             = DrainingNames (heap ?w1 x)"
  proof (cases "writeTypeSchemaChange e r j ?w1")
    case (Pair res w2)
    have "DrainingNames (heap w2 x) = DrainingNames (heap ?w1 x)"
      using write_names [of e r j ?w1 x] Pair by simp
    with Pair show ?thesis
      by (cases res) (simp_all add: performRenameTypeDesc_def Let_def cput_heap)
  qed
  from a b show ?thesis by simp
qed

lemma perform_validations:
  "validations (snd (performRenameTypeDesc e r newName j w)) = validations w"
proof -
  let ?d = "heap w r"
  let ?w1 = "set_desc r ((AddDrainingName ?d (NameInfo (ParentID ?d) (ParentSchemaID ?d) (Name ?d)))
                \<lparr>Name := newName\<rparr>) w"
  have a: "validations ?w1 = validations w"
    by (simp add: set_desc_validations)
  show ?thesis
  proof (cases "writeTypeSchemaChange e r j ?w1")
    case (Pair res w2)
    have "validations w2 = validations ?w1"
      using write_validations [of e r j ?w1] Pair by simp
    with Pair a show ?thesis
      by (cases res) (simp_all add: performRenameTypeDesc_def Let_def cput_validations)
  qed
qed

lemma perform_success:
  assumes "performRenameTypeDesc e r newName j w = (None, w')"
  shows "rename_applied r newName j w w'"
  using assms
  by (auto simp: performRenameTypeDesc_def rename_applied_def write_result CPut_Run_def
      set_desc_def AddDrainingName_def MakeObjectNameKey_def Let_def
      split: option.splits if_splits)

lemma renameType_names:
  "set (DrainingNames (heap w x))
     \<subseteq> set (DrainingNames (heap (snd (renameType e n newName w)) x))"
proof -
  let ?j = "AsStringWithFQNames e (node_n n)"
  let ?p = "performRenameTypeDesc e (node_desc n) newName ?j w"
  have p1: "set (DrainingNames (heap w x)) \<subseteq> set (DrainingNames (heap (snd ?p) x))"
    by (rule perform_names)
  have p2: "\<And>r nn. set (DrainingNames (heap w x))
      \<subseteq> set (DrainingNames (heap (snd (performRenameTypeDesc e r nn ?j (snd ?p))) x))"
    using p1 perform_names [of "snd ?p" x e _ _ ?j] by blast
  show ?thesis
    using p1 p2
    by (cases ?p) (auto simp: renameType_def Let_def split: prod.splits sum.splits option.splits)
qed

lemma renameType_validations:
  "validations (snd (renameType e n newName w)) = validations w"
proof -
  let ?j = "AsStringWithFQNames e (node_n n)"
  let ?p = "performRenameTypeDesc e (node_desc n) newName ?j w"
  have p1: "validations (snd ?p) = validations w"
    by (rule perform_validations)
  have p2: "\<And>r nn. validations (snd (performRenameTypeDesc e r nn ?j (snd ?p))) = validations w"
    using p1 by (simp add: perform_validations)
  show ?thesis
    using p1 p2
    by (cases ?p) (auto simp: renameType_def Let_def split: prod.splits sum.splits option.splits)
qed

lemma setTypeSchema_names:
  "set (DrainingNames (heap w x))
     \<subseteq> set (DrainingNames (heap (snd (setTypeSchema e n schema w)) x))"
  by (auto simp: setTypeSchema_def Let_def write_result CPut_Run_def set_desc_def
      AddDrainingName_def SetParentSchemaID_def split: sum.splits option.splits prod.splits)

lemma setTypeSchema_validations:
  "validations (snd (setTypeSchema e n schema w)) = validations w"
  by (auto simp: setTypeSchema_def Let_def write_result CPut_Run_def set_desc_def
      validations_def split: sum.splits option.splits prod.splits)

lemma addEnumValue_names:
  "DrainingNames (heap (snd (addEnumValue e n newVal w)) x) = DrainingNames (heap w x)"
  by (auto simp: addEnumValue_def AddEnumValue_def write_names set_desc_def
      split: sum.splits)

lemma addEnumValue_validations:
  "validations (snd (addEnumValue e n newVal w)) = validations w"
  by (auto simp: addEnumValue_def write_validations set_desc_validations split: sum.splits)

lemma renameTypeValue_names:
  "DrainingNames (heap (snd (renameTypeValue e n oldVal newVal w)) x) = DrainingNames (heap w x)"
  by (auto simp: renameTypeValue_def Let_def write_names set_desc_def split: sum.splits)

lemma renameTypeValue_validations:
  "validations (snd (renameTypeValue e n oldVal newVal w)) = validations w"
  by (auto simp: renameTypeValue_def Let_def write_validations set_desc_validations
      split: sum.splits)

lemma dispatch_validations: "validations (snd (dispatch e n w)) = validations w"
  by (cases "Cmd (node_n n)")
     (simp_all add: dispatch_def addEnumValue_validations renameTypeValue_validations
        renameType_validations setTypeSchema_validations)

section \<open>The rename coordinator\<close>

text \<open>
  C1. Whenever \<open>renameType\<close> succeeds, the rename was applied to both descriptors in
  order. There is an intermediate state \<open>w1\<close> such that the four steps (draining name
  recorded, name set, new version written, conditional insert at the new key, which was
  absent) lead from the initial state to \<open>w1\<close> for the base descriptor and the new name;
  in \<open>w1\<close> the array name is derived from the new name and the array descriptor is
  fetched by the base descriptor's array-type id; and the same four steps lead from \<open>w1\<close>
  to the final state for the array descriptor and the derived name. The two calls for the
  array descriptor therefore follow the two calls for the base descriptor in the trace.
\<close>

theorem renameType_renames_both:
  assumes "fst (renameType e n newName w) = None"
  shows "\<exists>w1 newArrayName arrayDesc.
           rename_applied (node_desc n) newName (AsStringWithFQNames e (node_n n)) w w1
         \<and> findFreeArrayTypeName e w1 (ParentID (heap w1 (node_desc n)))
               (ParentSchemaID (heap w1 (node_desc n))) newName = Inr newArrayName
         \<and> GetMutableTypeVersionByID e w1 (ArrayTypeID (heap w1 (node_desc n))) = Inr arrayDesc
         \<and> rename_applied arrayDesc newArrayName (AsStringWithFQNames e (node_n n)) w1
               (snd (renameType e n newName w))"
proof -
  let ?j = "AsStringWithFQNames e (node_n n)"
  let ?d = "heap w (node_desc n)"
  obtain ex i err where
    l: "LookupObjectID e w (ParentID ?d) (ParentSchemaID ?d) newName = (ex, i, err)"
    by (cases "LookupObjectID e w (ParentID ?d) (ParentSchemaID ?d) newName") auto
  obtain r1 w1 where p: "performRenameTypeDesc e (node_desc n) newName ?j w = (r1, w1)"
    by (cases "performRenameTypeDesc e (node_desc n) newName ?j w") auto
  from assms l have free: "err = None" "\<not> ex"
    by (auto simp: renameType_def Let_def split: sum.splits if_splits)
  with assms l p have r1: "r1 = None"
    by (cases r1) (auto simp: renameType_def Let_def)
  let ?d1 = "heap w1 (node_desc n)"
  from assms l p free r1 obtain newArrayName where
    f: "findFreeArrayTypeName e w1 (ParentID ?d1) (ParentSchemaID ?d1) newName = Inr newArrayName"
    by (cases "findFreeArrayTypeName e w1 (ParentID ?d1) (ParentSchemaID ?d1) newName")
       (auto simp: renameType_def Let_def)
  from assms l p free r1 f obtain arrayDesc where
    g: "GetMutableTypeVersionByID e w1 (ArrayTypeID ?d1) = Inr arrayDesc"
    by (cases "GetMutableTypeVersionByID e w1 (ArrayTypeID ?d1)")
       (auto simp: renameType_def Let_def)
  from l p free r1 f g have
    eq: "renameType e n newName w = performRenameTypeDesc e arrayDesc newArrayName ?j w1"
    by (simp add: renameType_def Let_def)
  with assms have "performRenameTypeDesc e arrayDesc newArrayName ?j w1
      = (None, snd (renameType e n newName w))"
    by (cases "performRenameTypeDesc e arrayDesc newArrayName ?j w1") auto
  then have second: "rename_applied arrayDesc newArrayName ?j w1 (snd (renameType e n newName w))"
    by (rule perform_success)
  from p r1 have first: "rename_applied (node_desc n) newName ?j w w1"
    by (simp add: perform_success)
  from first f g second show ?thesis by blast
qed

text \<open>
  Renaming \<open>status\<close> to \<open>state\<close> in the concrete catalog succeeds; the base descriptor
  (reference 52) and then the array descriptor (reference 53, new name \<open>_state\<close>) are
  renamed, and the trace shows the four calls in that order.
\<close>

theorem renameType_renames_both_witness:
  "fst (renameType example_env (example_node (AlterTypeRename ''state'')) ''state'' example_world) = None
 \<and> (\<exists>w1. rename_applied 52 ''state'' ''ALTER TYPE status'' example_world w1
         \<and> rename_applied 53 ''_state'' ''ALTER TYPE status'' w1
             (snd (renameType example_env (example_node (AlterTypeRename ''state'')) ''state''
                example_world)))
 \<and> trace (snd (renameType example_env (example_node (AlterTypeRename ''state'')) ''state''
       example_world)) =
     [WriteTypeSchemaChange (status_desc\<lparr>Name := ''state'',
         DrainingNames := [NameInfo 50 29 ''status'']\<rparr>) ''ALTER TYPE status'',
      CPut (NameInfo 50 29 ''state'') 52,
      WriteTypeSchemaChange (status_array_desc\<lparr>Name := ''_state'',
         DrainingNames := [NameInfo 50 29 ''_status'']\<rparr>) ''ALTER TYPE status'',
      CPut (NameInfo 50 29 ''_state'') 53]"
proof -
  let ?n = "example_node (AlterTypeRename ''state'')"
  have h: "fst (renameType example_env ?n ''state'' example_world) = None"
    by (simp add: example_defs op_defs)
  from renameType_renames_both [OF h] obtain w1 newArrayName arrayDesc where
    a: "rename_applied (node_desc ?n) ''state'' (AsStringWithFQNames example_env (node_n ?n))
          example_world w1"
    and f: "findFreeArrayTypeName example_env w1 (ParentID (heap w1 (node_desc ?n)))
               (ParentSchemaID (heap w1 (node_desc ?n))) ''state'' = Inr newArrayName"
    and g: "GetMutableTypeVersionByID example_env w1 (ArrayTypeID (heap w1 (node_desc ?n)))
               = Inr arrayDesc"
    and b: "rename_applied arrayDesc newArrayName (AsStringWithFQNames example_env (node_n ?n)) w1
               (snd (renameType example_env ?n ''state'' example_world))"
    by blast
  from a have a': "rename_applied 52 ''state'' ''ALTER TYPE status'' example_world w1"
    by (simp add: example_node_def example_env_def)
  from f have n: "newArrayName = ''_state''"
    by (simp add: example_env_def)
  from a' have "ArrayTypeID (heap w1 52) = 53"
    by (simp add: rename_applied_def example_world_def status_desc_def Let_def)
  with g have r: "arrayDesc = 53"
    by (simp add: example_env_def example_node_def)
  from b n r have b': "rename_applied 53 ''_state'' ''ALTER TYPE status'' w1
      (snd (renameType example_env ?n ''state'' example_world))"
    by (simp add: example_node_def example_env_def)
  have t: "trace (snd (renameType example_env ?n ''state'' example_world)) =
     [WriteTypeSchemaChange (status_desc\<lparr>Name := ''state'',
         DrainingNames := [NameInfo 50 29 ''status'']\<rparr>) ''ALTER TYPE status'',
      CPut (NameInfo 50 29 ''state'') 52,
      WriteTypeSchemaChange (status_array_desc\<lparr>Name := ''_state'',
         DrainingNames := [NameInfo 50 29 ''_status'']\<rparr>) ''ALTER TYPE status'',
      CPut (NameInfo 50 29 ''_state'') 53]"
    by (simp add: example_defs op_defs)
  from h a' b' t show ?thesis by blast
qed

text \<open>
  C5, as the code has it. When the lookup of (parent id, schema id, \<open>newName\<close>) reports
  the key occupied, without an error, \<open>renameType\<close> changes nothing and returns: the
  "already exists" error naming the kind of the colliding object, when the fetch of that
  object by the colliding id succeeds; the fetch error, wrapped, when the fetch fails.
  When the lookup itself returns an error, that error is returned unchanged and nothing
  is changed.
\<close>

theorem renameType_name_collision:
  "(LookupObjectID e w (ParentID (heap w (node_desc n))) (ParentSchemaID (heap w (node_desc n)))
      newName = (True, collidingID, None) \<longrightarrow>
      (\<forall>colliding. GetAnyDescriptorByID e w collidingID = Inr colliding \<longrightarrow>
         renameType e n newName w = (Some (ObjectAlreadyExists (kind colliding) newName), w))
    \<and> (\<forall>fetchErr. GetAnyDescriptorByID e w collidingID = Inl fetchErr \<longrightarrow>
         renameType e n newName w = (Some (WhileConstructingObjectAlreadyExists fetchErr), w)))
 \<and> (\<forall>found anyID lookupErr.
      LookupObjectID e w (ParentID (heap w (node_desc n))) (ParentSchemaID (heap w (node_desc n)))
        newName = (found, anyID, Some lookupErr) \<longrightarrow>
      renameType e n newName w = (Some lookupErr, w))"
  by (simp add: renameType_def MakeObjectAlreadyExistsError_def
      WrapErrorWhileConstructingObjectAlreadyExistsErr_def)

text \<open>
  Renaming \<open>status\<close> to \<open>t1\<close>, the name of a table of the same schema: the error names
  the table's kind when the table's descriptor can be fetched, and wraps the fetch error
  when it cannot; the state is the initial one both times.
\<close>

theorem renameType_name_collision_witness:
  "renameType example_env (example_node (AlterTypeRename ''t1'')) ''t1'' example_world =
     (Some (ObjectAlreadyExists TableObject ''t1''), example_world)
 \<and> renameType failing_fetch_env (example_node (AlterTypeRename ''t1'')) ''t1'' example_world =
     (Some (WhileConstructingObjectAlreadyExists (External ''descriptor not found'')),
      example_world)"
proof -
  let ?n = "example_node (AlterTypeRename ''t1'')"
  let ?d = "heap example_world (node_desc ?n)"
  have l: "LookupObjectID example_env example_world (ParentID ?d) (ParentSchemaID ?d) ''t1''
             = (True, 54, None)"
    by (simp add: example_defs)
  have g: "GetAnyDescriptorByID example_env example_world 54
             = Inr \<lparr>kind = TableObject, name = ''t1''\<rparr>"
    by (simp add: example_defs)
  have l': "LookupObjectID failing_fetch_env example_world (ParentID ?d) (ParentSchemaID ?d) ''t1''
             = (True, 54, None)"
    by (simp add: example_defs failing_fetch_env_def)
  have g': "GetAnyDescriptorByID failing_fetch_env example_world 54
             = Inl (External ''descriptor not found'')"
    by (simp add: failing_fetch_env_def)
  from renameType_name_collision [of example_env example_world ?n "''t1''" 54] l g
  have a: "renameType example_env ?n ''t1'' example_world =
     (Some (ObjectAlreadyExists TableObject ''t1''), example_world)"
    by simp
  from renameType_name_collision [of failing_fetch_env example_world ?n "''t1''" 54] l' g'
  have b: "renameType failing_fetch_env ?n ''t1'' example_world =
     (Some (WhileConstructingObjectAlreadyExists (External ''descriptor not found'')),
      example_world)"
    by simp
  from a b show ?thesis by simp
qed

text \<open>
  The claim as written fails where the lookup reports the key occupied and the fetch of
  the colliding descriptor fails: the error returned is the wrapped fetch error, which
  names no kind.
\<close>

theorem renameType_name_collision_counterexample:
  "LookupObjectID failing_fetch_env example_world 50 29 ''t1'' = (True, 54, None)
 \<and> renameType failing_fetch_env (example_node (AlterTypeRename ''t1'')) ''t1'' example_world =
     (Some (WhileConstructingObjectAlreadyExists (External ''descriptor not found'')),
      example_world)
 \<and> \<not> is_ObjectAlreadyExists
       (WhileConstructingObjectAlreadyExists (External ''descriptor not found''))"
  by (simp add: example_defs op_defs failing_fetch_env_def)

section \<open>The enum value editor\<close>

text \<open>
  C2. The claim: whenever some member is named \<open>newVal\<close>, \<open>renameTypeValue\<close> fails with
  DuplicateObject and changes nothing; the comment above the loop says the pass verifies
  that there is not already a member named \<open>newVal\<close>. The code does otherwise at this
  input: the members are \<open>active\<close> and \<open>inactive\<close>, and \<open>oldVal\<close> and \<open>newVal\<close> are both
  \<open>active\<close>. The loop tests \<open>newVal\<close> only in the else-branch of the test for \<open>oldVal\<close>,
  so the member named \<open>active\<close> is not seen as a duplicate: the call issues the write and
  returns no error, where the claim has the DuplicateObject error and no write.
\<close>

theorem renameTypeValue_same_value_not_refused:
  "''active'' \<in> set (map LogicalRepresentation (EnumMembers (heap example_world 52)))
 \<and> renameTypeValue_loop (EnumMembers (heap example_world 52)) ''active'' ''active'' 0 (- 1)
     = Inr 0
 \<and> fst (renameTypeValue example_env (example_node (AlterTypeRenameValue ''active'' ''active''))
          ''active'' ''active'' example_world) = None
 \<and> fst (renameTypeValue example_env (example_node (AlterTypeRenameValue ''active'' ''active''))
          ''active'' ''active'' example_world)
     \<noteq> Some (PgError DuplicateObject ''enum label active already exists'')
 \<and> trace (snd (renameTypeValue example_env
        (example_node (AlterTypeRenameValue ''active'' ''active'')) ''active'' ''active''
        example_world)) = [WriteTypeSchemaChange status_desc ''ALTER TYPE status'']"
  by (simp add: example_defs op_defs)

text \<open>
  The divergence is confined to equal values. When \<open>oldVal\<close> and \<open>newVal\<close> differ and
  some member is named \<open>newVal\<close>, the code returns the DuplicateObject error and the state,
  the member list included, is exactly the one before the call.
\<close>

lemma renameTypeValue_duplicate_distinct:
  assumes "oldVal \<noteq> newVal"
    and "m \<in> set (EnumMembers (heap w (node_desc n)))"
    and "LogicalRepresentation m = newVal"
  shows "renameTypeValue e n oldVal newVal w =
           (Some (PgError DuplicateObject (''enum label '' @ newVal @ '' already exists'')), w)"
  using assms by (simp add: renameTypeValue_def loop_duplicate)

text \<open>Renaming \<open>active\<close> to \<open>inactive\<close>, the name of the other member.\<close>

lemma renameTypeValue_duplicate_distinct_example:
  "renameTypeValue example_env (example_node (AlterTypeRenameValue ''active'' ''inactive''))
     ''active'' ''inactive'' example_world =
   (Some (PgError DuplicateObject ''enum label inactive already exists''), example_world)"
proof -
  let ?n = "example_node (AlterTypeRenameValue ''active'' ''inactive'')"
  let ?m = "\<lparr>PhysicalRepresentation = [0x80], LogicalRepresentation = ''inactive''\<rparr>"
  have 1: "''active'' \<noteq> ''inactive''" by simp
  have 2: "?m \<in> set (EnumMembers (heap example_world (node_desc ?n)))"
    by (simp add: example_defs)
  have 3: "LogicalRepresentation ?m = ''inactive''" by simp
  from renameTypeValue_duplicate_distinct [OF 1 2 3, of example_env] show ?thesis by simp
qed

text \<open>
  C3. When no member is named \<open>oldVal\<close> and no member is named \<open>newVal\<close>,
  \<open>renameTypeValue\<close> fails with InvalidParameterValue and the state, the member list
  included, is exactly the one before the call.
\<close>

theorem renameTypeValue_missing:
  assumes "\<forall>m \<in> set (EnumMembers (heap w (node_desc n))).
             LogicalRepresentation m \<noteq> oldVal \<and> LogicalRepresentation m \<noteq> newVal"
  shows "renameTypeValue e n oldVal newVal w =
           (Some (PgError InvalidParameterValue (oldVal @ '' is not an existing enum label'')), w)"
  using assms by (simp add: renameTypeValue_def loop_absent)

text \<open>Renaming \<open>z\<close> to \<open>y\<close>, neither of which names a member.\<close>

theorem renameTypeValue_missing_witness:
  "renameTypeValue example_env (example_node (AlterTypeRenameValue ''z'' ''y''))
     ''z'' ''y'' example_world =
   (Some (PgError InvalidParameterValue ''z is not an existing enum label''), example_world)"
proof -
  let ?n = "example_node (AlterTypeRenameValue ''z'' ''y'')"
  have h: "\<forall>m \<in> set (EnumMembers (heap example_world (node_desc ?n))).
             LogicalRepresentation m \<noteq> ''z'' \<and> LogicalRepresentation m \<noteq> ''y''"
    by (simp add: example_defs)
  from renameTypeValue_missing [OF h, of example_env] show ?thesis by simp
qed

text \<open>
  C4. When exactly one member, at position \<open>i\<close>, is named \<open>oldVal\<close> and no other member
  is named \<open>newVal\<close>, a successful \<open>renameTypeValue\<close> changes the state in this way
  only: the member at position \<open>i\<close> has the logical name \<open>newVal\<close> and the physical
  encoding it had, every other member and the length of the list are as before, and the
  descriptor with the new member list was written (the call is the next one of the
  trace, and the stored version is the next one).
\<close>

theorem renameTypeValue_renames_in_place:
  assumes members: "members = EnumMembers (heap w (node_desc n))"
    and i: "i < length members"
    and old: "LogicalRepresentation (members ! i) = oldVal"
    and others: "\<forall>j < length members. j \<noteq> i \<longrightarrow>
           LogicalRepresentation (members ! j) \<noteq> oldVal
         \<and> LogicalRepresentation (members ! j) \<noteq> newVal"
    and ok: "fst (renameTypeValue e n oldVal newVal w) = None"
  shows "snd (renameTypeValue e n oldVal newVal w) =
           w\<lparr>heap := (heap w)(node_desc n := (heap w (node_desc n))
                \<lparr>EnumMembers := members[i := (members ! i)\<lparr>LogicalRepresentation := newVal\<rparr>],
                 Version := Version (heap w (node_desc n)) + 1\<rparr>),
             trace := trace w @
               [WriteTypeSchemaChange ((heap w (node_desc n))
                  \<lparr>EnumMembers := members[i := (members ! i)\<lparr>LogicalRepresentation := newVal\<rparr>]\<rparr>)
                  (AsStringWithFQNames e (node_n n))]\<rparr>
       \<and> length (EnumMembers (heap (snd (renameTypeValue e n oldVal newVal w)) (node_desc n)))
           = length members
       \<and> EnumMembers (heap (snd (renameTypeValue e n oldVal newVal w)) (node_desc n)) ! i
           = \<lparr>PhysicalRepresentation = PhysicalRepresentation (members ! i),
              LogicalRepresentation = newVal\<rparr>
       \<and> (\<forall>j < length members. j \<noteq> i \<longrightarrow>
            EnumMembers (heap (snd (renameTypeValue e n oldVal newVal w)) (node_desc n)) ! j
              = members ! j)"
proof -
  let ?d = "heap w (node_desc n)"
  from ok obtain k where k: "renameTypeValue_loop members oldVal newVal 0 (- 1) = Inr k"
    and k1: "k \<noteq> - 1"
    by (cases "renameTypeValue_loop members oldVal newVal 0 (- 1)")
       (auto simp: renameTypeValue_def members Let_def split: if_splits)
  from loop_index [OF k] k1 have kr: "0 \<le> k" "k < int (length members)"
    "LogicalRepresentation (members ! nat k) = oldVal" by auto
  from kr others have ki: "nat k = i"
    by (metis nat_less_iff)
  let ?ms = "members[i := (members ! i)\<lparr>LogicalRepresentation := newVal\<rparr>]"
  from k k1 ki have eq: "renameTypeValue e n oldVal newVal w =
      writeTypeSchemaChange e (node_desc n) (AsStringWithFQNames e (node_n n))
        (set_desc (node_desc n) (?d\<lparr>EnumMembers := ?ms\<rparr>) w)"
    by (simp add: renameTypeValue_def members [symmetric] Let_def)
  with ok have w: "snd (renameTypeValue e n oldVal newVal w) =
      w\<lparr>heap := (heap w)(node_desc n := ?d\<lparr>EnumMembers := ?ms, Version := Version ?d + 1\<rparr>),
        trace := trace w @ [WriteTypeSchemaChange (?d\<lparr>EnumMembers := ?ms\<rparr>)
                   (AsStringWithFQNames e (node_n n))]\<rparr>"
    by (simp add: write_result set_desc_def split: option.splits)
  have m: "EnumMembers (heap (snd (renameTypeValue e n oldVal newVal w)) (node_desc n)) = ?ms"
    by (simp add: w)
  from i have at_i: "?ms ! i = \<lparr>PhysicalRepresentation = PhysicalRepresentation (members ! i),
              LogicalRepresentation = newVal\<rparr>"
    by simp
  have rest: "\<forall>j < length members. j \<noteq> i \<longrightarrow> ?ms ! j = members ! j"
    by simp
  from w m at_i rest show ?thesis by simp
qed

text \<open>
  The scenario of the spec: renaming \<open>inactive\<close> to \<open>disabled\<close> succeeds and yields the
  members \<open>active\<close>, \<open>disabled\<close>, with the encodings they had.
\<close>

theorem renameTypeValue_renames_in_place_witness:
  "fst (renameTypeValue example_env (example_node (AlterTypeRenameValue ''inactive'' ''disabled''))
          ''inactive'' ''disabled'' example_world) = None
 \<and> EnumMembers (heap (snd (renameTypeValue example_env
        (example_node (AlterTypeRenameValue ''inactive'' ''disabled'')) ''inactive'' ''disabled''
        example_world)) 52) =
     [\<lparr>PhysicalRepresentation = [0x40], LogicalRepresentation = ''active''\<rparr>,
      \<lparr>PhysicalRepresentation = [0x80], LogicalRepresentation = ''disabled''\<rparr>]
 \<and> trace (snd (renameTypeValue example_env
        (example_node (AlterTypeRenameValue ''inactive'' ''disabled'')) ''inactive'' ''disabled''
        example_world)) =
     [WriteTypeSchemaChange (status_desc\<lparr>EnumMembers :=
        [\<lparr>PhysicalRepresentation = [0x40], LogicalRepresentation = ''active''\<rparr>,
         \<lparr>PhysicalRepresentation = [0x80], LogicalRepresentation = ''disabled''\<rparr>]\<rparr>)
        ''ALTER TYPE status'']"
proof -
  let ?n = "example_node (AlterTypeRenameValue ''inactive'' ''disabled'')"
  let ?ms = "[\<lparr>PhysicalRepresentation = [0x40], LogicalRepresentation = ''active''\<rparr>,
              \<lparr>PhysicalRepresentation = [0x80], LogicalRepresentation = ''inactive''\<rparr>]"
  have 1: "?ms = EnumMembers (heap example_world (node_desc ?n))"
    by (simp add: example_defs)
  have 2: "(1::nat) < length ?ms" by simp
  have 3: "LogicalRepresentation (?ms ! 1) = ''inactive''" by simp
  have 4: "\<forall>j < length ?ms. j \<noteq> 1 \<longrightarrow>
             LogicalRepresentation (?ms ! j) \<noteq> ''inactive''
           \<and> LogicalRepresentation (?ms ! j) \<noteq> ''disabled''"
    by (simp add: less_Suc_eq)
  have 5: "fst (renameTypeValue example_env ?n ''inactive'' ''disabled'' example_world) = None"
    by (simp add: example_defs op_defs)
  from renameTypeValue_renames_in_place [OF 1 2 3 4 5] 5 show ?thesis
    by (simp add: example_defs)
qed

text \<open>
  C10. When some member is named \<open>v\<close>, renaming \<open>v\<close> to \<open>v\<close> passes the check phase:
  the loop ends without an error, at the index of a member. The call then is exactly the
  write of the descriptor as it was, and whatever the write returns, the member list after
  the call is the member list before it.
\<close>

theorem renameTypeValue_same_name:
  assumes "m \<in> set (EnumMembers (heap w (node_desc n)))"
    and "LogicalRepresentation m = v"
  shows "(\<exists>i. renameTypeValue_loop (EnumMembers (heap w (node_desc n))) v v 0 (- 1) = Inr i
              \<and> 0 \<le> i \<and> i < int (length (EnumMembers (heap w (node_desc n)))))
       \<and> renameTypeValue e n v v w =
           writeTypeSchemaChange e (node_desc n) (AsStringWithFQNames e (node_n n)) w
       \<and> EnumMembers (heap (snd (renameTypeValue e n v v w)) (node_desc n))
           = EnumMembers (heap w (node_desc n))"
proof -
  let ?d = "heap w (node_desc n)"
  let ?ms = "EnumMembers ?d"
  obtain k where k: "renameTypeValue_loop ?ms v v 0 (- 1) = Inr k"
    using loop_same by blast
  from loop_found [OF k assms] have k0: "0 \<le> k" by simp
  with loop_index [OF k] have kr: "k < int (length ?ms)"
    "LogicalRepresentation (?ms ! nat k) = v" by auto
  then have same: "?ms[nat k := (?ms ! nat k)\<lparr>LogicalRepresentation := v\<rparr>] = ?ms"
    by (metis EnumMember.surjective EnumMember.update_convs(2) list_update_id)
  have "set_desc (node_desc n) ?d w = w"
    by (simp add: set_desc_def)
  with k k0 same have eq: "renameTypeValue e n v v w =
      writeTypeSchemaChange e (node_desc n) (AsStringWithFQNames e (node_n n)) w"
    by (simp add: renameTypeValue_def Let_def)
  from k k0 kr eq show ?thesis
    by (simp add: write_members)
qed

text \<open>Renaming \<open>active\<close> to \<open>active\<close>: the write is issued and the members stay.\<close>

theorem renameTypeValue_same_name_witness:
  "renameTypeValue example_env (example_node (AlterTypeRenameValue ''active'' ''active''))
     ''active'' ''active'' example_world =
   writeTypeSchemaChange example_env 52 ''ALTER TYPE status'' example_world
 \<and> EnumMembers (heap (snd (renameTypeValue example_env
        (example_node (AlterTypeRenameValue ''active'' ''active'')) ''active'' ''active''
        example_world)) 52) =
     [\<lparr>PhysicalRepresentation = [0x40], LogicalRepresentation = ''active''\<rparr>,
      \<lparr>PhysicalRepresentation = [0x80], LogicalRepresentation = ''inactive''\<rparr>]"
proof -
  let ?n = "example_node (AlterTypeRenameValue ''active'' ''active'')"
  let ?m = "\<lparr>PhysicalRepresentation = [0x40], LogicalRepresentation = ''active''\<rparr>"
  have 1: "?m \<in> set (EnumMembers (heap example_world (node_desc ?n)))"
    by (simp add: example_defs)
  have 2: "LogicalRepresentation ?m = ''active''" by simp
  have r: "node_desc ?n = 52"
    by (simp add: example_node_def)
  have j: "AsStringWithFQNames example_env (node_n ?n) = ''ALTER TYPE status''"
    by (simp add: example_node_def example_env_def)
  have ms: "EnumMembers (heap example_world 52) =
     [\<lparr>PhysicalRepresentation = [0x40], LogicalRepresentation = ''active''\<rparr>,
      \<lparr>PhysicalRepresentation = [0x80], LogicalRepresentation = ''inactive''\<rparr>]"
    by (simp add: example_defs)
  from renameTypeValue_same_name [OF 1 2, of example_env]
  have "renameTypeValue example_env ?n ''active'' ''active'' example_world =
          writeTypeSchemaChange example_env (node_desc ?n)
            (AsStringWithFQNames example_env (node_n ?n)) example_world
      \<and> EnumMembers (heap (snd (renameTypeValue example_env ?n ''active'' ''active''
            example_world)) (node_desc ?n)) = EnumMembers (heap example_world (node_desc ?n))"
    by blast
  then show ?thesis
    unfolding r j ms .
qed

section \<open>The schema reparent operator\<close>

text \<open>
  C6. When the target schema resolves to the descriptor's current parent-schema id,
  \<open>setTypeSchema\<close> returns success and the state after the call is the state before it:
  no draining name is added, no field of any descriptor changes, and no write and no
  conditional insert is issued (the trace is the one before the call).
\<close>

theorem setTypeSchema_same_schema:
  assumes "prepareSetSchema e w (heap w (node_desc n)) schema = Inr desiredSchemaID"
    and "desiredSchemaID = ParentSchemaID (heap w (node_desc n))"
  shows "setTypeSchema e n schema w = (None, w)"
  using assms by (simp add: setTypeSchema_def)

text \<open>Moving \<open>status\<close> to \<open>public\<close>, the schema (id 29) it is in.\<close>

theorem setTypeSchema_same_schema_witness:
  "setTypeSchema example_env (example_node (AlterTypeSetSchema ''public'')) ''public'' example_world
     = (None, example_world)"
proof -
  let ?n = "example_node (AlterTypeSetSchema ''public'')"
  have 1: "prepareSetSchema example_env example_world (heap example_world (node_desc ?n)) ''public''
             = Inr 29"
    by (simp add: example_defs)
  have 2: "29 = ParentSchemaID (heap example_world (node_desc ?n))"
    by (simp add: example_defs)
  from setTypeSchema_same_schema [OF 1 2] show ?thesis .
qed

section \<open>The mutation engine: dispatch and validation\<close>

text \<open>
  C7. \<open>startExec\<close> succeeds exactly when the dispatched operator succeeds and the
  validation of the descriptor, in the state the operator left, succeeds. When the
  operator succeeds, the result of \<open>startExec\<close> is the result of the validation, so a
  validation error is returned although the operator reported success, and validation
  was invoked once, on the descriptor as the operator left it. When the operator fails,
  \<open>startExec\<close> returns what the operator returned and validation was not invoked.
\<close>

theorem startExec_validates:
  "(fst (startExec e n w) = None \<longleftrightarrow>
      fst (dispatch e n w) = None
    \<and> Validate e (snd (dispatch e n w)) (heap (snd (dispatch e n w)) (node_desc n)) = None)
 \<and> (fst (dispatch e n w) = None \<longrightarrow>
      fst (startExec e n w)
        = Validate e (snd (dispatch e n w)) (heap (snd (dispatch e n w)) (node_desc n))
    \<and> validations (snd (startExec e n w))
        = validations w @ [heap (snd (dispatch e n w)) (node_desc n)])
 \<and> (fst (dispatch e n w) \<noteq> None \<longrightarrow>
      startExec e n w = dispatch e n w
    \<and> validations (snd (startExec e n w)) = validations w)"
proof (cases "dispatch e n w")
  case (Pair res w1)
  have v: "validations w1 = validations w"
    using dispatch_validations [of e n w] Pair by simp
  show ?thesis
  proof (cases res)
    case None
    with Pair v show ?thesis
      by (simp add: startExec_def Validate_call_def validations_def)
  next
    case (Some err)
    with Pair v show ?thesis
      by (simp add: startExec_def)
  qed
qed

text \<open>
  Renaming \<open>inactive\<close> to \<open>disabled\<close>: the statement succeeds when the descriptor is
  valid, and fails with the validation error when it is not, the operator having
  succeeded both times. Renaming \<open>z\<close> to \<open>y\<close>: the operator fails, the statement returns
  its error and no validation is recorded.
\<close>

theorem startExec_validates_witness:
  "fst (startExec example_env (example_node (AlterTypeRenameValue ''inactive'' ''disabled''))
          example_world) = None
 \<and> fst (dispatch failing_validate_env (example_node (AlterTypeRenameValue ''inactive'' ''disabled''))
          example_world) = None
 \<and> fst (startExec failing_validate_env (example_node (AlterTypeRenameValue ''inactive'' ''disabled''))
          example_world) = Some (External ''invalid descriptor'')
 \<and> length (validations (snd (startExec failing_validate_env
          (example_node (AlterTypeRenameValue ''inactive'' ''disabled'')) example_world))) = 1
 \<and> startExec example_env (example_node (AlterTypeRenameValue ''z'' ''y'')) example_world =
     (Some (PgError InvalidParameterValue ''z is not an existing enum label''), example_world)
 \<and> validations (snd (startExec example_env (example_node (AlterTypeRenameValue ''z'' ''y''))
          example_world)) = []"
proof -
  let ?n = "example_node (AlterTypeRenameValue ''inactive'' ''disabled'')"
  let ?z = "example_node (AlterTypeRenameValue ''z'' ''y'')"
  have d1: "fst (dispatch example_env ?n example_world) = None"
    by (simp add: example_defs op_defs)
  have v1: "Validate example_env (snd (dispatch example_env ?n example_world))
              (heap (snd (dispatch example_env ?n example_world)) (node_desc ?n)) = None"
    by (simp add: example_env_def)
  have d2: "fst (dispatch failing_validate_env ?n example_world) = None"
    by (simp add: example_defs op_defs failing_validate_env_def)
  have v2: "Validate failing_validate_env (snd (dispatch failing_validate_env ?n example_world))
              (heap (snd (dispatch failing_validate_env ?n example_world)) (node_desc ?n))
              = Some (External ''invalid descriptor'')"
    by (simp add: failing_validate_env_def)
  have d3: "dispatch example_env ?z example_world =
     (Some (PgError InvalidParameterValue ''z is not an existing enum label''), example_world)"
    by (simp add: example_defs op_defs)
  have v0: "validations example_world = []"
    by (simp add: validations_def example_world_def)
  from startExec_validates [of example_env ?n example_world] d1 v1
  have a: "fst (startExec example_env ?n example_world) = None"
    by simp
  from startExec_validates [of failing_validate_env ?n example_world] d2 v2 v0
  have b: "fst (startExec failing_validate_env ?n example_world)
             = Some (External ''invalid descriptor'')"
    and c: "length (validations (snd (startExec failing_validate_env ?n example_world))) = 1"
    by simp_all
  from startExec_validates [of example_env ?z example_world] d3 v0
  have d: "startExec example_env ?z example_world =
     (Some (PgError InvalidParameterValue ''z is not an existing enum label''), example_world)"
    and f: "validations (snd (startExec example_env ?z example_world)) = []"
    by simp_all
  from a d2 b c d f show ?thesis by simp
qed

text \<open>
  C8. When the command is none of the four variants of the switch, \<open>startExec\<close> returns
  the assertion failure, which is not an error with a pg code, and the state after the
  call is the state before it: no operator ran, no descriptor changed, nothing was
  written and validation was not invoked.
\<close>

theorem startExec_unknown_command:
  assumes "\<not> is_AddValue (Cmd (node_n n))" and "\<not> is_RenameValue (Cmd (node_n n))"
    and "\<not> is_Rename (Cmd (node_n n))" and "\<not> is_SetSchema (Cmd (node_n n))"
  shows "\<exists>t. Cmd (node_n n) = OtherCmd t
           \<and> startExec e n w = (Some (AssertionFailed (''unknown alter type cmd '' @ t)), w)
           \<and> fst (startExec e n w) \<noteq> Some (PgError code msg)
           \<and> validations (snd (startExec e n w)) = validations w"
  using assms
  by (cases "Cmd (node_n n)") (simp_all add: startExec_def dispatch_def)

text \<open>A command of another variant, rendered \<open>DROP VALUE\<close>.\<close>

theorem startExec_unknown_command_witness:
  "startExec example_env (example_node (OtherCmd ''DROP VALUE'')) example_world =
     (Some (AssertionFailed ''unknown alter type cmd DROP VALUE''), example_world)"
proof -
  let ?n = "example_node (OtherCmd ''DROP VALUE'')"
  have c: "Cmd (node_n ?n) = OtherCmd ''DROP VALUE''"
    by (simp add: example_node_def)
  have 1: "\<not> is_AddValue (Cmd (node_n ?n))" and 2: "\<not> is_RenameValue (Cmd (node_n ?n))"
    and 3: "\<not> is_Rename (Cmd (node_n ?n))" and 4: "\<not> is_SetSchema (Cmd (node_n ?n))"
    by (simp_all add: c)
  from startExec_unknown_command [OF 1 2 3 4, of example_env example_world] c
  show ?thesis by auto
qed

section \<open>Draining names\<close>

text \<open>
  C9. For each of the four operators and every descriptor of the heap, whatever the
  operator returns, the draining names of the descriptor after the call include the
  draining names it had before: no operator removes or clears one.
\<close>

theorem draining_names_grow:
  "set (DrainingNames (heap w r))
     \<subseteq> set (DrainingNames (heap (snd (addEnumValue e n addedVal w)) r))
 \<and> set (DrainingNames (heap w r))
     \<subseteq> set (DrainingNames (heap (snd (renameTypeValue e n oldVal newVal w)) r))
 \<and> set (DrainingNames (heap w r))
     \<subseteq> set (DrainingNames (heap (snd (renameType e n newName w)) r))
 \<and> set (DrainingNames (heap w r))
     \<subseteq> set (DrainingNames (heap (snd (setTypeSchema e n schema w)) r))"
  by (simp add: addEnumValue_names renameTypeValue_names renameType_names setTypeSchema_names)

text \<open>
  Moving \<open>status\<close>, renamed to \<open>state\<close> before, to the schema \<open>other\<close>: the draining
  name of the rename is kept and the one of the move is added.
\<close>

theorem draining_names_grow_witness:
  "DrainingNames (heap (snd (setTypeSchema example_env (example_node (AlterTypeSetSchema ''other''))
       ''other'' (snd (renameType example_env (example_node (AlterTypeRename ''state'')) ''state''
          example_world)))) 52)
     = [NameInfo 50 29 ''status'', NameInfo 50 29 ''state'']
 \<and> set (DrainingNames (heap (snd (renameType example_env (example_node (AlterTypeRename ''state''))
       ''state'' example_world)) 52))
     \<subseteq> set (DrainingNames (heap (snd (setTypeSchema example_env
           (example_node (AlterTypeSetSchema ''other'')) ''other''
           (snd (renameType example_env (example_node (AlterTypeRename ''state'')) ''state''
              example_world)))) 52))"
proof -
  let ?w1 = "snd (renameType example_env (example_node (AlterTypeRename ''state'')) ''state''
               example_world)"
  have a: "DrainingNames (heap (snd (setTypeSchema example_env
             (example_node (AlterTypeSetSchema ''other'')) ''other'' ?w1)) 52)
     = [NameInfo 50 29 ''status'', NameInfo 50 29 ''state'']"
    by (simp add: example_defs op_defs)
  from draining_names_grow [of ?w1 52 example_env "example_node (AlterTypeSetSchema ''other'')"]
  have b: "set (DrainingNames (heap ?w1 52))
     \<subseteq> set (DrainingNames (heap (snd (setTypeSchema example_env
           (example_node (AlterTypeSetSchema ''other'')) ''other'' ?w1)) 52))"
    by blast
  from a b show ?thesis by blast
qed

end
